theory Spec2Isabelle
  imports Main "HOL-Library.Word"
begin

unbundle bit_operations_syntax

section \<open>Quorum: the quality-aware k-mer database\<close>

text \<open>
  A shallow embedding of the two sources of the repository: the database-creation
  program (class \<open>hash_with_quality\<close>, class \<open>quality_mer_counter\<close> and \<open>main\<close>) and
  the header \<open>mer_database.hpp\<close> (a second \<open>hash_with_quality\<close>, and
  \<open>database_query\<close>). The Jellyfish library the code is built on (the key array, the
  bit-packed value array, \<open>mer_dna\<close>, the file header) is not part of the sources; its
  operations are modelled from the specification, each marked as such.
\<close>

subsection \<open>Errors\<close>

text \<open>
  \<open>UndefinedAccess\<close>: a read or write outside an array or a string, which C++ leaves
  undefined. \<open>ArgsError\<close>: \<open>args.error(msg)\<close>, which reports and exits with a failure
  status. \<open>Die\<close>: the \<open>die\<close> stream, likewise. \<open>RuntimeError\<close>: a thrown
  \<open>std::runtime_error\<close>.
\<close>

datatype error =
    UndefinedAccess
  | ArgsError string
  | Die string
  | RuntimeError string

text \<open>A name between single quotes, as the messages show it.\<close>

definition quoted :: "string \<Rightarrow> string" where
  "quoted s = CHR 0x27 # s @ [CHR 0x27]"

subsection \<open>K-mers\<close>

text \<open>
  Modelled from the spec: \<open>jellyfish::mer_dna\<close>, a k-mer held as an integer with two
  bits per base, the first base in the most significant position. \<open>k\<close> is the
  process-wide length set by \<open>mer_dna::k(args.mer_arg)\<close>; it is passed explicitly.
\<close>

type_synonym mer = nat

definition mer_dna_code :: "char \<Rightarrow> int" where
  "mer_dna_code c =
     (if c = CHR ''A'' \<or> c = CHR ''a'' then 0
      else if c = CHR ''C'' \<or> c = CHR ''c'' then 1
      else if c = CHR ''G'' \<or> c = CHR ''g'' then 2
      else if c = CHR ''T'' \<or> c = CHR ''t'' then 3
      else - 1)"

definition mer_dna_not_dna :: "int \<Rightarrow> bool" where
  "mer_dna_not_dna c = (c < 0)"

definition mer_dna_rev_code :: "int \<Rightarrow> int" where
  "mer_dna_rev_code c = 3 - c"

definition shift_left :: "nat \<Rightarrow> mer \<Rightarrow> int \<Rightarrow> mer" where
  "shift_left k m c = (m * 4 + nat c) mod 4 ^ k"

definition shift_right :: "nat \<Rightarrow> mer \<Rightarrow> int \<Rightarrow> mer" where
  "shift_right k m c = m div 4 + nat c * 4 ^ (k - 1)"

subsection \<open>The bit-packed value array\<close>

text \<open>
  Modelled from the spec: \<open>jellyfish::atomic_bits_array\<close>, one opaque integer of
  \<open>val_bits\<close> bits per slot. A slot holds \<open>val_bits\<close> bits and no more: reading
  gives the low \<open>val_bits\<close> bits, and so does storing.
\<close>

record val_array =
  val_bits :: nat
  val_data :: "64 word list"

definition val_array_new :: "nat \<Rightarrow> nat \<Rightarrow> val_array" where
  "val_array_new bits sz = \<lparr>val_bits = bits, val_data = replicate sz 0\<rparr>"

definition entry_get :: "val_array \<Rightarrow> nat \<Rightarrow> 64 word" where
  "entry_get v slot = take_bit (val_bits v) (val_data v ! slot)"

definition entry_set :: "val_array \<Rightarrow> nat \<Rightarrow> 64 word \<Rightarrow> val_array" where
  "entry_set v slot x = v\<lparr>val_data := (val_data v)[slot := take_bit (val_bits v) x]\<rparr>"

subsection \<open>The key store\<close>

text \<open>
  Modelled from the spec: \<open>jellyfish::large_hash::array\<close>, an open-addressing store
  of fixed capacity. \<open>mer_array_set\<close> is its insert-or-find: it returns the slot of
  the key and whether the key is new, or \<open>None\<close> when no slot is found within the
  reprobe limit (capacity exhaustion). The probe sequence here is linear from the key's
  home slot; the realized capacity is the requested size rounded up to a power of two.
\<close>

record mer_array =
  slots :: "mer option list"
  key_len :: nat
  val_len :: nat
  max_reprobe :: nat

fun ceil_pow2 :: "nat \<Rightarrow> nat \<Rightarrow> nat" where
  "ceil_pow2 0 sz = 1"
| "ceil_pow2 (Suc n) sz = (if sz \<le> 1 then 1 else 2 * ceil_pow2 n ((sz + 1) div 2))"

definition mer_array_new :: "nat \<Rightarrow> nat \<Rightarrow> nat \<Rightarrow> nat \<Rightarrow> mer_array" where
  "mer_array_new sz klen vlen reprobe_limit =
     \<lparr>slots = replicate (ceil_pow2 sz sz) None, key_len = klen, val_len = vlen,
      max_reprobe = reprobe_limit\<rparr>"

definition mer_array_size :: "mer_array \<Rightarrow> nat" where
  "mer_array_size ks = length (slots ks)"

fun probe :: "mer option list \<Rightarrow> mer \<Rightarrow> nat \<Rightarrow> nat \<Rightarrow> (bool \<times> nat) option" where
  "probe sl key i 0 = None"
| "probe sl key i (Suc n) =
     (let pos = (key + i) mod length sl in
      case sl ! pos of
        None \<Rightarrow> Some (True, pos)
      | Some k' \<Rightarrow> if k' = key then Some (False, pos) else probe sl key (Suc i) n)"

definition mer_array_set :: "mer_array \<Rightarrow> mer \<Rightarrow> (mer_array \<times> bool \<times> nat) option" where
  "mer_array_set ks key =
     (if slots ks = [] then None
      else case probe (slots ks) key 0 (Suc (max_reprobe ks)) of
        None \<Rightarrow> None
      | Some (is_new, slot) \<Rightarrow> Some (ks\<lparr>slots := (slots ks)[slot := Some key]\<rparr>, is_new, slot))"

subsection \<open>hash_with_quality\<close>

record hash_with_quality =
  hq_keys :: mer_array
  hq_vals :: val_array
  hq_max_val :: "64 word"

text \<open>
  The fields \<open>hq_keys\<close>, \<open>hq_vals\<close> and \<open>hq_max_val\<close> are the members \<open>keys\<close>,
  \<open>vals\<close> and \<open>max_val\<close> of the class (written there with a trailing underscore).
  The member \<open>max_val\<close> is initialised with
  \<open>(uint64_t)-1 >> (sizeof(uint64_t) * 8 - bits)\<close>: the subtraction is done
  in \<open>size_t\<close>. A shift by 64 or more is undefined in C++ (here it gives 0); \<open>main\<close>
  admits only \<open>bits\<close> from 1 to 63. The key length and the reprobe limit are
  \<open>uint16_t\<close> parameters of the constructor.
\<close>

definition max_val :: "int \<Rightarrow> 64 word" where
  "max_val bits = drop_bit (nat ((64 - bits) mod 2 ^ 64)) (- 1)"

definition hash_with_quality_new :: "nat \<Rightarrow> nat \<Rightarrow> int \<Rightarrow> nat \<Rightarrow> hash_with_quality" where
  "hash_with_quality_new sz klen bits reprobe_limit =
     (let ks = mer_array_new sz (unat (word_of_nat klen :: 16 word)) 0
                 (unat (word_of_nat reprobe_limit :: 16 word)) in
      \<lparr>hq_keys = ks,
       hq_vals = val_array_new (nat (bits + 1)) (mer_array_size ks),
       hq_max_val = max_val bits\<rparr>)"

text \<open>
  The body of the \<open>do\<close> loop of \<open>add\<close>: \<open>None\<close> is the \<open>return true\<close> of the second
  branch, \<open>Some nval\<close> the value handed to \<open>entry.set\<close>. \<open>quality\<close> is an
  \<open>unsigned int\<close>, widened to 64 bits by the comparison.
\<close>

definition merge_step :: "64 word \<Rightarrow> 32 word \<Rightarrow> 64 word \<Rightarrow> 64 word option" where
  "merge_step oval quality mx =
     (if (oval AND 1) > ucast quality then Some 3
      else if drop_bit 1 oval = mx then None
      else Some (oval + 2))"

text \<open>
  Modelled from the spec: the compare-and-swap of \<open>entry.set\<close>
  (\<open>jellyfish::atomic_bits_array\<close>), which fails when another thread has changed the
  slot since it was read, and then hands back the value it finds there.

  The loop \<open>do { ... } while(!entry.set(nval))\<close>, on the value array. \<open>races\<close>
  lists the values that other threads put in the slot at the lost races of this call,
  in order; with \<open>[]\<close> the first \<open>entry.set\<close> succeeds, as it always does with
  one thread. The second branch leaves the loop without a store.
\<close>

fun add_loop :: "val_array \<Rightarrow> nat \<Rightarrow> 64 word \<Rightarrow> 32 word \<Rightarrow> 64 word \<Rightarrow> 64 word list
    \<Rightarrow> val_array" where
  "add_loop v slot mx quality nval [] =
     (case merge_step nval quality mx of
        None \<Rightarrow> v
      | Some nv \<Rightarrow> entry_set v slot nv)"
| "add_loop v slot mx quality nval (cur # races) =
     (case merge_step nval quality mx of
        None \<Rightarrow> v
      | Some nv \<Rightarrow>
          (let v' = entry_set v slot cur
           in add_loop v' slot mx quality (entry_get v' slot) races))"

text \<open>
  \<open>add\<close>: \<open>vals_[id]\<close> is not range-checked; a slot beyond the value array is an
  undefined access.
\<close>

definition add :: "hash_with_quality \<Rightarrow> mer \<Rightarrow> 32 word \<Rightarrow> 64 word list
    \<Rightarrow> error + (bool \<times> hash_with_quality)" where
  "add h key quality races =
     (case mer_array_set (hq_keys h) key of
        None \<Rightarrow> Inr (False, h)
      | Some (ks, is_new, slot) \<Rightarrow>
          if length (val_data (hq_vals h)) \<le> slot then Inl UndefinedAccess
          else Inr (True,
                 h\<lparr>hq_keys := ks,
                   hq_vals := add_loop (hq_vals h) slot (hq_max_val h) quality
                                (entry_get (hq_vals h) slot) races\<rparr>))"

subsection \<open>quality_mer_counter\<close>

text \<open>
  The state of one worker running \<open>start\<close>: the two k-mers \<open>m\<close> and \<open>rm\<close>, declared
  once before the loop over the jobs, the shared table, and the calls of \<open>ary_.add\<close>
  made so far (key and quality, in order).
\<close>

record scan =
  sc_m :: mer
  sc_rm :: mer
  sc_ary :: hash_with_quality
  sc_calls :: "(mer \<times> 32 word) list"

text \<open>The value of a \<open>char\<close>, which is signed.\<close>

definition char_val :: "char \<Rightarrow> int" where
  "char_val c = (if (of_char c :: nat) < 128 then int (of_char c) else int (of_char c) - 256)"

text \<open>
  The loop \<open>for( ; base != seq.begin(); ++base, ++base)\<close> over one read. The
  iterators \<open>base\<close> and \<open>qual\<close> are offsets from \<open>seq.begin()\<close> and
  \<open>quals.begin()\<close>; \<open>qual\<close> is never advanced. Both shifts are applied to \<open>m\<close>.
  The result of \<open>ary_.add\<close> is dropped. Each \<open>entry.set\<close> succeeds at once (one
  worker at a time).
\<close>

function scan_bases :: "nat \<Rightarrow> char \<Rightarrow> string \<Rightarrow> string \<Rightarrow> nat \<Rightarrow> nat
    \<Rightarrow> 32 word \<Rightarrow> 32 word \<Rightarrow> scan \<Rightarrow> error + scan" where
  "scan_bases k thresh seq quals base qual low_len high_len st =
     (if base \<noteq> 0 then
        (if length seq \<le> base then Inl UndefinedAccess
         else
           let c = mer_dna_code (seq ! base) in
           if mer_dna_not_dna c then scan_bases k thresh seq quals (base + 2) qual 0 0 st
           else if length quals \<le> qual then Inl UndefinedAccess
           else
             let st1 = st\<lparr>sc_m := shift_right k (shift_left k (sc_m st) c) (mer_dna_rev_code c)\<rparr>;
                 low' = low_len + 1;
                 high' = (if char_val (quals ! qual) > char_val thresh then high_len + 1 else 0)
             in
             if k \<le> unat low' then
               (let key = (if sc_m st1 < sc_rm st1 then sc_m st1 else sc_rm st1);
                    quality = (if k \<le> unat high' then 1 else 0)
                in case add (sc_ary st1) key quality [] of
                     Inl e \<Rightarrow> Inl e
                   | Inr (ok, h) \<Rightarrow>
                       scan_bases k thresh seq quals (base + 2) qual low' high'
                         (st1\<lparr>sc_ary := h, sc_calls := sc_calls st1 @ [(key, quality)]\<rparr>))
             else scan_bases k thresh seq quals (base + 2) qual low' high' st1)
      else Inr st)"
  by pat_completeness auto
termination
  by (relation "measure (\<lambda>(k, thresh, seq, quals, base, rest). length seq - base)") auto

text \<open>The loop over the reads of one job: \<open>base\<close> and \<open>qual\<close> start at the beginning.\<close>

fun scan_job :: "nat \<Rightarrow> char \<Rightarrow> scan \<Rightarrow> (string \<times> string) list \<Rightarrow> error + scan" where
  "scan_job k thresh st [] = Inr st"
| "scan_job k thresh st ((seq, quals) # reads) =
     (case scan_bases k thresh seq quals 0 0 0 0 st of
        Inl e \<Rightarrow> Inl e
      | Inr st' \<Rightarrow> scan_job k thresh st' reads)"

text \<open>
  The loop \<open>while(true)\<close> over the jobs of the parser, left when the parser hands out
  an empty job: \<open>jobs\<close> are the jobs this worker gets, each the list of its filled
  reads.
\<close>

fun scan_jobs :: "nat \<Rightarrow> char \<Rightarrow> scan \<Rightarrow> (string \<times> string) list list \<Rightarrow> error + scan" where
  "scan_jobs k thresh st [] = Inr st"
| "scan_jobs k thresh st (job # jobs) =
     (case scan_job k thresh st job of
        Inl e \<Rightarrow> Inl e
      | Inr st' \<Rightarrow> scan_jobs k thresh st' jobs)"

record quality_mer_counter =
  qc_ary :: hash_with_quality
  qc_parser :: "(string \<times> string) list list"
  qc_qual_thresh :: char

text \<open>\<open>start\<close>: \<open>m\<close> and \<open>rm\<close> are fresh k-mers (all bases A).\<close>

definition start :: "nat \<Rightarrow> quality_mer_counter \<Rightarrow> error + scan" where
  "start k qc =
     scan_jobs k (qc_qual_thresh qc)
       \<lparr>sc_m = 0, sc_rm = 0, sc_ary = qc_ary qc, sc_calls = []\<rparr> (qc_parser qc)"

subsection \<open>The file header and the written file\<close>

text \<open>
  Modelled from the spec: \<open>jellyfish::file_header\<close>, of which \<open>database_header\<close> is
  a subclass: the format tag, the table size, the key and value lengths and the reprobe
  limit, with the members \<open>bits\<close>, \<open>key_bytes\<close> and \<open>value_bytes\<close> that
  \<open>database_header\<close> adds. A member never written reads back as 0 or as the empty
  string.
\<close>

record database_header =
  hdr_format :: string
  hdr_size :: nat
  hdr_key_len :: nat
  hdr_val_len :: nat
  hdr_max_reprobe :: nat
  hdr_bits :: nat
  hdr_key_bytes :: nat
  hdr_value_bytes :: nat

definition database_header_new :: database_header where
  "database_header_new =
     \<lparr>hdr_format = [], hdr_size = 0, hdr_key_len = 0, hdr_val_len = 0, hdr_max_reprobe = 0,
      hdr_bits = 0, hdr_key_bytes = 0, hdr_value_bytes = 0\<rparr>"

definition update_from_ary :: "database_header \<Rightarrow> mer_array \<Rightarrow> database_header" where
  "update_from_ary hdr ks =
     hdr\<lparr>hdr_size := mer_array_size ks, hdr_key_len := key_len ks, hdr_val_len := val_len ks,
        hdr_max_reprobe := max_reprobe ks\<rparr>"

definition set_format :: "database_header \<Rightarrow> database_header" where
  "set_format hdr = hdr\<lparr>hdr_format := ''binary/quorum_db''\<rparr>"

definition check_format :: "database_header \<Rightarrow> bool" where
  "check_format hdr = (''binary/quorum_db'' = hdr_format hdr)"

text \<open>
  The binary layouts of the two arrays belong to Jellyfish and are parameters here:
  \<open>key_image\<close> gives the bytes that \<open>keys_.write\<close> puts on the stream,
  \<open>val_image\<close> those of \<open>vals_.write\<close>.
\<close>

record layout =
  key_image :: "mer_array \<Rightarrow> 8 word list"
  val_image :: "val_array \<Rightarrow> 8 word list"

text \<open>\<open>hash_with_quality::write\<close> of the database-creation program, the one \<open>main\<close> calls.\<close>

definition create_database_write :: "layout \<Rightarrow> hash_with_quality \<Rightarrow> 8 word list \<Rightarrow> 8 word list" where
  "create_database_write L h os = (os @ val_image L (hq_vals h)) @ key_image L (hq_keys h)"

text \<open>\<open>hash_with_quality::write\<close> of \<open>mer_database.hpp\<close>.\<close>

definition mer_database_write :: "layout \<Rightarrow> hash_with_quality \<Rightarrow> 8 word list \<Rightarrow> 8 word list" where
  "mer_database_write L h os = (os @ key_image L (hq_keys h)) @ val_image L (hq_vals h)"

text \<open>
  A file on disk: the header found at its start (\<open>None\<close> when the bytes there do not
  parse as a header) and the bytes from the header's \<open>offset\<close> on.
\<close>

record disk_file =
  df_header :: "database_header option"
  df_body :: "8 word list"

subsection \<open>main\<close>

record create_database_cmdline =
  mer_arg :: nat
  min_qual_value_given :: bool
  min_qual_value_arg :: nat
  min_qual_char_given :: bool
  min_qual_char_arg :: string
  bits_arg :: int
  size_arg :: nat
  reprobe_arg :: nat
  threads_arg :: nat
  reads_arg :: "string list"
  output_arg :: string

text \<open>
  The checks of \<open>main\<close> up to the construction of the table. \<open>output_good\<close> tells
  whether the output file could be opened for writing. The result is the quality
  threshold and the fresh table.
\<close>

definition main_startup :: "create_database_cmdline \<Rightarrow> bool \<Rightarrow> error + (char \<times> hash_with_quality)" where
  "main_startup args output_good =
     (if \<not> min_qual_value_given args \<and> \<not> min_qual_char_given args
      then Inl (ArgsError ''Either a min-qual-value or min-qual-char must be provided.'')
      else if length (min_qual_char_arg args) \<noteq> 1
      then Inl (ArgsError ''The min-qual-char should be one ASCII character.'')
      else if bits_arg args < 1 \<or> bits_arg args > 63
      then Inl (ArgsError ''The number of bits should be between 1 and 63'')
      else if \<not> output_good
      then Inl (Die (''Failed to open output file '' @ quoted (output_arg args) @ ''.''))
      else Inr (if min_qual_char_given args then min_qual_char_arg args ! 0
                else char_of (min_qual_value_arg args),
                hash_with_quality_new (size_arg args) (2 * mer_arg args) (bits_arg args)
                  (reprobe_arg args)))"

text \<open>
  \<open>main\<close>: \<open>jobs\<close> are the batches of reads that the parser makes of the input
  files. The workers of \<open>exec_join\<close> are run as one.
\<close>

definition main :: "layout \<Rightarrow> create_database_cmdline \<Rightarrow> bool \<Rightarrow> (string \<times> string) list list
    \<Rightarrow> error + disk_file" where
  "main L args output_good jobs =
     (case main_startup args output_good of
        Inl e \<Rightarrow> Inl e
      | Inr (qual_thresh, ary) \<Rightarrow>
          (case start (mer_arg args)
                  \<lparr>qc_ary = ary, qc_parser = jobs, qc_qual_thresh = qual_thresh\<rparr> of
             Inl e \<Rightarrow> Inl e
           | Inr st \<Rightarrow>
               Inr \<lparr>df_header =
                      Some ((update_from_ary database_header_new (hq_keys (sc_ary st)))
                              \<lparr>hdr_bits := nat (bits_arg args)\<rparr>),
                    df_body = create_database_write L (sc_ary st) []\<rparr>))"

subsection \<open>database_query\<close>

record mer_array_raw =
  kr_data :: "8 word list"
  kr_size :: nat
  kr_key_len :: nat
  kr_val_len :: nat
  kr_max_reprobe :: nat

record val_array_raw =
  vr_data :: "8 word list"
  vr_bits :: nat
  vr_size :: nat

record database_query =
  dq_header :: database_header
  dq_file :: "8 word list"
  dq_keys :: mer_array_raw
  dq_vals :: val_array_raw

text \<open>\<open>parse_header\<close>: \<open>None\<close> is a file that cannot be opened.\<close>

definition parse_header :: "string \<Rightarrow> disk_file option \<Rightarrow> error + database_header" where
  "parse_header filename file =
     (case file of
        None \<Rightarrow> Inl (RuntimeError (''Can't open '' @ quoted filename @ '' for reading''))
      | Some f \<Rightarrow>
          (case df_header f of
             None \<Rightarrow> Inl (RuntimeError (''Can't parse header of file '' @ quoted filename))
           | Some res \<Rightarrow>
               if \<not> check_format res
               then Inl (RuntimeError (''Wrong type '' @ quoted (hdr_format res)
                                        @ '' for file '' @ quoted filename))
               else Inr res))"

text \<open>
  The constructor of \<open>database_query\<close>. The two raw arrays are windows on the mapped
  file: \<open>bytes\<close> bytes from a start address, which is \<open>file_.base() + header_.offset()\<close>
  for the keys and \<open>header_.key_bytes()\<close> further for the values.
\<close>

definition mapped :: "8 word list \<Rightarrow> nat \<Rightarrow> nat \<Rightarrow> 8 word list" where
  "mapped body off bytes = take bytes (drop off body)"

definition database_query_new :: "string \<Rightarrow> disk_file option \<Rightarrow> error + database_query" where
  "database_query_new filename file =
     (case parse_header filename file of
        Inl e \<Rightarrow> Inl e
      | Inr hdr \<Rightarrow>
          (case file of
             None \<Rightarrow> Inl (RuntimeError (''Can't open '' @ quoted filename @ '' for reading''))
           | Some f \<Rightarrow>
               Inr \<lparr>dq_header = hdr,
                    dq_file = df_body f,
                    dq_keys = \<lparr>kr_data = mapped (df_body f) 0 (hdr_key_bytes hdr),
                               kr_size = hdr_size hdr, kr_key_len = hdr_key_len hdr,
                               kr_val_len = hdr_val_len hdr,
                               kr_max_reprobe = hdr_max_reprobe hdr\<rparr>,
                    dq_vals = \<lparr>vr_data = mapped (df_body f) (hdr_key_bytes hdr) (hdr_value_bytes hdr),
                               vr_bits = hdr_bits hdr, vr_size = hdr_size hdr\<rparr>\<rparr>))"

text \<open>\<open>get_val\<close>: the value of \<open>m\<close> in the database.\<close>

definition get_val :: "database_query \<Rightarrow> mer \<Rightarrow> 64 word" where
  "get_val dq m = 1"

subsection \<open>Harness\<close>

text \<open>
  Successive calls \<open>ary.add(key, q)\<close> for one key, one for each quality of the list,
  made by one thread; the results of the calls are dropped, as \<open>start\<close> does.
\<close>

fun add_seq :: "hash_with_quality \<Rightarrow> mer \<Rightarrow> 32 word list \<Rightarrow> error + hash_with_quality" where
  "add_seq h key [] = Inr h"
| "add_seq h key (q # qs) =
     (case add h key q [] of
        Inl e \<Rightarrow> Inl e
      | Inr (ok, h') \<Rightarrow> add_seq h' key qs)"

text \<open>
  A layout to instantiate the layout parameters at concrete inputs: one byte for each
  slot of either array.
\<close>

definition example_layout :: layout where
  "example_layout =
     \<lparr>key_image = (\<lambda>ks. map (\<lambda>s. case s of None \<Rightarrow> 0 | Some k \<Rightarrow> word_of_nat k + 1) (slots ks)),
      val_image = (\<lambda>v. map ucast (val_data v))\<rparr>"

text \<open>
  The table \<open>hash_with_quality(1, 6, 1, 0)\<close> after \<open>add(0, 1)\<close>: one slot, taken
  by key 0, whose one-bit counter is at its maximum.
\<close>

definition one_slot_table :: hash_with_quality where
  "one_slot_table =
     \<lparr>hq_keys = \<lparr>slots = [Some 0], key_len = 6, val_len = 0, max_reprobe = 0\<rparr>,
      hq_vals = \<lparr>val_bits = 2, val_data = [2]\<rparr>,
      hq_max_val = 1\<rparr>"

text \<open>
  A command line that passes the checks of \<open>main\<close>, and a header as a reader of
  \<open>one_slot_table\<close> under \<open>example_layout\<close> needs it: the format tag set, one byte
  of keys, one byte of values.
\<close>

definition example_args :: create_database_cmdline where
  "example_args =
     \<lparr>mer_arg = 3, min_qual_value_given = False, min_qual_value_arg = 0,
      min_qual_char_given = True, min_qual_char_arg = ''#'', bits_arg = 7, size_arg = 16,
      reprobe_arg = 126, threads_arg = 1, reads_arg = [''reads.fastq''], output_arg = ''db''\<rparr>"

definition example_header :: database_header where
  "example_header =
     \<lparr>hdr_format = ''binary/quorum_db'', hdr_size = 1, hdr_key_len = 6, hdr_val_len = 0,
      hdr_max_reprobe = 0, hdr_bits = 1, hdr_key_bytes = 1, hdr_value_bytes = 1\<rparr>"

section \<open>Properties\<close>

subsection \<open>Words\<close>

lemma max_val_eq: "1 \<le> bits \<Longrightarrow> bits \<le> 63 \<Longrightarrow> max_val bits = 2 ^ nat bits - 1"
proof -
  assume b: "1 \<le> bits" "bits \<le> 63"
  then have "(64 - bits) mod 2 ^ 64 = 64 - bits" by simp
  moreover have "64 - nat (64 - bits) = nat bits" using b by linarith
  ultimately show ?thesis
    by (simp add: max_val_def mask_eq_decr_exp)
qed

lemma and_one_cases: "(x :: 64 word) AND 1 = 0 \<or> x AND 1 = 1"
  by (simp add: and_one_eq) (metis even_iff_mod_2_eq_zero odd_iff_mod_2_eq_one)

lemma flag_gt_iff:
  fixes oval :: "64 word" and quality :: "32 word"
  assumes "quality = 0 \<or> quality = 1"
  shows "((oval AND 1) > ucast quality) = (oval AND 1 = 1 \<and> quality = 0)"
  using assms and_one_cases [of oval] by auto

lemma unat_max_counter: 
  assumes "b \<le> 63" shows "unat (2 ^ b - 1 :: 64 word) = 2 ^ b - 1"
proof -
  have m: "min 64 b = b" using assms by simp
  have "uint (mask b :: 64 word) = mask (min 64 b)"
    using uint_mask_eq [where ?'a = 64 and n = b] by simp
  then have "uint (mask b :: 64 word) = 2 ^ b - 1"
    by (simp only: m mask_int_def)
  then have "unat (mask b :: 64 word) = nat (2 ^ b - 1)"
    by (simp only: unat_eq_nat_uint)
  also have "\<dots> = 2 ^ b - 1"
    by (simp add: nat_diff_distrib nat_power_eq)
  finally show ?thesis by (simp only: mask_eq_decr_exp)
qed

lemma unat_take_bit_less: fixes x :: "64 word" shows "unat (take_bit n x) < 2 ^ n"
  by (simp add: unsigned_take_bit_eq)

lemma take_bit_unat_less: fixes x :: "64 word" shows "unat x < 2 ^ n \<Longrightarrow> take_bit n x = x"
  by (metis take_bit_nat_eq_self_iff unsigned_take_bit_eq word_eq_iff_unsigned)

lemma incr_no_wrap:
  fixes oval :: "64 word"
  assumes r: "unat oval < 2 ^ Suc b" and b: "b \<le> 63" and c: "drop_bit 1 oval \<noteq> 2 ^ b - 1"
  shows "unat (oval + 2) = unat oval + 2 \<and> unat oval + 2 < 2 ^ Suc b"
proof -
  have p: "(2::nat) ^ Suc b \<le> 2 ^ 64" using b by (intro power_increasing) auto
  have "unat (drop_bit 1 oval) \<noteq> unat (2 ^ b - 1 :: 64 word)" using c by (simp add: word_unat_eq_iff)
  then have "unat oval div 2 \<noteq> 2 ^ b - 1"
    by (simp add: unat_drop_bit_eq drop_bit_eq_div unat_max_counter [OF b] unat_div)
  with r have 2: "unat oval + 2 < 2 ^ Suc b" by simp
  with p have "unat oval + 2 < 2 ^ 64" by linarith
  then have "unat (oval + 2) = unat oval + 2"
    by (simp add: unat_word_ariths)
  with 2 show ?thesis by simp
qed

lemma incr_fields:
  fixes oval :: "64 word"
  assumes r: "unat oval < 2 ^ Suc b" and b: "b \<le> 63" and c: "drop_bit 1 oval \<noteq> 2 ^ b - 1"
  shows "take_bit (Suc b) (oval + 2) = oval + 2 \<and> drop_bit 1 (oval + 2) = drop_bit 1 oval + 1
     \<and> (oval + 2) AND 1 = oval AND 1"
proof -
  from incr_no_wrap [OF r b c] have u: "unat (oval + 2) = unat oval + 2" and l: "unat oval + 2 < 2 ^ Suc b" by auto
  have 1: "take_bit (Suc b) (oval + 2) = oval + 2" using u l by (intro take_bit_unat_less) simp
  have "unat oval div 2 + 1 < 2 ^ 64" using unsigned_less [of oval, where ?'a = nat] by simp
  then have "unat (drop_bit 1 oval + 1) = unat oval div 2 + 1"
    by (simp add: unat_word_ariths unat_drop_bit_eq drop_bit_eq_div unat_div)
  moreover have "unat (drop_bit 1 (oval + 2)) = unat oval div 2 + 1"
    by (simp add: unat_drop_bit_eq drop_bit_eq_div unat_div u)
  ultimately have "unat (drop_bit 1 (oval + 2)) = unat (drop_bit 1 oval + 1)" by simp
  then have 2: "drop_bit 1 (oval + 2) = drop_bit 1 oval + 1" by (simp add: word_unat_eq_iff)
  have 3: "(oval + 2) AND 1 = oval AND 1"
    by (simp add: and_one_eq mod_2_eq_odd)
  from 1 2 3 show ?thesis by simp
qed

lemma take_bit_3: 
  assumes "1 \<le> b" shows "take_bit (Suc b) (3 :: 64 word) = 3"
proof -
  have "(2::nat) ^ 2 \<le> 2 ^ Suc b" using assms by (intro power_increasing) auto
  then have "unat (3 :: 64 word) < 2 ^ Suc b" by simp
  then show ?thesis by (rule take_bit_unat_less)
qed

lemma take_bit_small:
  fixes y :: "64 word"
  assumes "2 \<le> bits" "unat y < 8" shows "take_bit (nat (bits + 1)) y = y"
proof -
  have "3 \<le> nat (bits + 1)" using assms(1) by simp
  then have "(2::nat) ^ 3 \<le> 2 ^ nat (bits + 1)" by (intro power_increasing) auto
  with assms(2) have "unat y < 2 ^ nat (bits + 1)" by simp
  then show ?thesis by (rule take_bit_unat_less)
qed

lemma max_counter_ge_1:
  assumes "1 \<le> b" "b \<le> 63" shows "1 \<le> unat (2 ^ b - 1 :: 64 word)"
proof -
  have "(2::nat) ^ 1 \<le> 2 ^ b" using assms(1) by (intro power_increasing) auto
  then show ?thesis by (simp add: unat_max_counter [OF assms(2)])
qed

lemma max_counter_ge_3:
  assumes "2 \<le> b" "b \<le> 63" shows "3 \<le> unat (2 ^ b - 1 :: 64 word)"
proof -
  have "(2::nat) ^ 2 \<le> 2 ^ b" using assms(1) by (intro power_increasing) auto
  then show ?thesis by (simp add: unat_max_counter [OF assms(2)])
qed

subsection \<open>The merge step on small values\<close>

lemma merge_step_fresh:
  assumes "1 \<le> bits" "bits \<le> 63"
  shows "merge_step 0 q (max_val bits) = Some 2"
proof -
  have nb: "1 \<le> nat bits" "nat bits \<le> 63" using assms by linarith+
  from max_counter_ge_1 [OF nb]
  have "unat (0 :: 64 word) < unat (2 ^ nat bits - 1 :: 64 word)" by simp
  then have "(0 :: 64 word) \<noteq> 2 ^ nat bits - 1" by auto
  then show ?thesis by (simp add: merge_step_def max_val_eq [OF assms])
qed

lemma merge_step_low:
  assumes "2 \<le> bits" "bits \<le> 63"
  shows "merge_step 2 q (max_val bits) = Some 4" and "merge_step 4 q (max_val bits) = Some 6"
proof -
  have nb: "2 \<le> nat bits" "nat bits \<le> 63" using assms by linarith+
  from max_counter_ge_3 [OF nb]
  have 3: "3 \<le> unat (2 ^ nat bits - 1 :: 64 word)" by simp
  then have "unat (1 :: 64 word) < unat (2 ^ nat bits - 1 :: 64 word)"
    and "unat (2 :: 64 word) < unat (2 ^ nat bits - 1 :: 64 word)" by simp_all
  then have ne: "(1 :: 64 word) \<noteq> 2 ^ nat bits - 1" "(2 :: 64 word) \<noteq> 2 ^ nat bits - 1" by auto
  have b: "1 \<le> bits" using assms by simp
  have d: "drop_bit 1 (2 :: 64 word) = 1" "drop_bit 1 (4 :: 64 word) = 2"
    by (simp_all add: drop_bit_eq_div)
  have a: "(2 :: 64 word) AND 1 = 0" "(4 :: 64 word) AND 1 = 0" by (simp_all add: and_one_eq)
  show "merge_step 2 q (max_val bits) = Some 4"
    unfolding merge_step_def max_val_eq [OF b assms(2)] d a using ne by simp
  show "merge_step 4 q (max_val bits) = Some 6"
    unfolding merge_step_def max_val_eq [OF b assms(2)] d a using ne by simp
qed

lemma downgrade_not_taken:
  fixes v :: "64 word" and q :: "32 word"
  shows "1 \<le> bits \<Longrightarrow> bits \<le> 63 \<Longrightarrow> drop_bit 1 v = 2 ^ nat bits - 1 \<Longrightarrow> \<not> (v AND 1) > ucast q
     \<Longrightarrow> merge_step v q (max_val bits) = None"
  by (simp add: merge_step_def max_val_eq)

subsection \<open>The key store\<close>

lemma probe_lt: "probe sl key i n = Some (b, s) \<Longrightarrow> sl \<noteq> [] \<Longrightarrow> s < length sl"
  by (induction n arbitrary: i) (auto simp: Let_def split: option.splits if_splits)

lemma probe_update_same:
  "probe sl key i n = Some (b, s) \<Longrightarrow> sl \<noteq> [] \<Longrightarrow> probe (sl[s := Some key]) key i n = Some (False, s)"
proof (induction n arbitrary: i)
  case 0
  then show ?case by simp
next
  case (Suc n)
  let ?pos = "(key + i) mod length sl"
  have pos: "?pos < length sl" using Suc.prems(2) by simp
  from Suc.prems(1) probe_lt [OF Suc.prems] have s: "s < length sl" by simp
  show ?case
  proof (cases "sl ! ?pos")
    case None
    with Suc.prems(1) have "s = ?pos" by (simp add: Let_def)
    with pos show ?thesis by (simp add: Let_def)
  next
    case (Some k')
    show ?thesis
    proof (cases "k' = key")
      case True
      with Some Suc.prems(1) have "s = ?pos" by (simp add: Let_def)
      with pos show ?thesis by (simp add: Let_def)
    next
      case False
      with Some Suc.prems(1) have r: "probe sl key (Suc i) n = Some (b, s)" by (simp add: Let_def)
      from Suc.IH [OF r Suc.prems(2)] Some False pos s show ?thesis
        by (cases "s = ?pos") (simp_all add: Let_def)
    qed
  qed
qed

lemma mer_array_set_slot:
  assumes "mer_array_set ks key = Some (ks', b, s)"
  shows "s < mer_array_size ks \<and> mer_array_size ks' = mer_array_size ks \<and> slots ks' ! s = Some key"
  using assms probe_lt [of "slots ks" key 0 "Suc (max_reprobe ks)"]
  by (auto simp: mer_array_set_def mer_array_size_def simp del: probe.simps
      split: if_splits option.splits)

lemma mer_array_set_again:
  assumes "mer_array_set ks key = Some (ks', b, s)"
  shows "mer_array_set ks' key = Some (ks', False, s)"
proof -
  from assms have ne: "slots ks \<noteq> []" and p: "probe (slots ks) key 0 (Suc (max_reprobe ks)) = Some (b, s)"
    and ks': "ks' = ks\<lparr>slots := (slots ks)[s := Some key]\<rparr>"
    by (auto simp: mer_array_set_def simp del: probe.simps split: if_splits option.splits)
  from probe_update_same [OF p ne] ne show ?thesis
    by (simp add: mer_array_set_def ks' del: probe.simps)
qed

lemma ceil_pow2_pos: "0 < ceil_pow2 n sz"
  by (induction n arbitrary: sz) auto

lemma fresh_table:
  fixes sz kl bits r
  defines "h0 \<equiv> hash_with_quality_new sz kl bits r"
  defines "n \<equiv> mer_array_size (hq_keys h0)"
  shows "0 < n" and "slots (hq_keys h0) = replicate n None"
    and "val_data (hq_vals h0) = replicate n 0" and "val_bits (hq_vals h0) = nat (bits + 1)"
    and "hq_max_val h0 = max_val bits"
    and "mer_array_set (hq_keys h0) key
          = Some ((hq_keys h0)\<lparr>slots := (replicate n None)[key mod n := Some key]\<rparr>, True, key mod n)"
proof -
  have n: "n = ceil_pow2 sz sz"
    by (simp add: n_def h0_def hash_with_quality_new_def mer_array_new_def mer_array_size_def Let_def)
  show 0: "0 < n" by (simp add: n ceil_pow2_pos)
  show s: "slots (hq_keys h0) = replicate n None"
    by (simp add: n h0_def hash_with_quality_new_def mer_array_new_def Let_def)
  show "val_data (hq_vals h0) = replicate n 0"
    by (simp add: n h0_def hash_with_quality_new_def mer_array_new_def mer_array_size_def
        val_array_new_def Let_def)
  show "val_bits (hq_vals h0) = nat (bits + 1)"
    by (simp add: h0_def hash_with_quality_new_def val_array_new_def Let_def)
  show "hq_max_val h0 = max_val bits"
    by (simp add: h0_def hash_with_quality_new_def Let_def)
  show "mer_array_set (hq_keys h0) key
          = Some ((hq_keys h0)\<lparr>slots := (replicate n None)[key mod n := Some key]\<rparr>, True, key mod n)"
    using 0 by (simp add: mer_array_set_def s Let_def)
qed

subsection \<open>One call of add\<close>

lemma entry_get_set:
  "slot < length (val_data v) \<Longrightarrow> entry_get (entry_set v slot x) slot = take_bit (val_bits v) x"
  by (simp add: entry_get_def entry_set_def)

lemma add_uncontended:
  assumes "mer_array_set (hq_keys h) key = Some (ks, is_new, slot)"
    and "slot < length (val_data (hq_vals h))"
  shows "add h key quality [] =
     Inr (True, h\<lparr>hq_keys := ks,
                  hq_vals := (case merge_step (entry_get (hq_vals h) slot) quality (hq_max_val h) of
                     None \<Rightarrow> hq_vals h
                   | Some nv \<Rightarrow> entry_set (hq_vals h) slot nv)\<rparr>)"
  using assms by (simp add: add_def)

lemma add_saturated:
  assumes "mer_array_set (hq_keys h) key = Some (ks, is_new, slot)"
    and "slot < length (val_data (hq_vals h))"
    and "merge_step (entry_get (hq_vals h) slot) quality (hq_max_val h) = None"
  shows "add h key quality races = Inr (True, h\<lparr>hq_keys := ks\<rparr>)"
  using assms by (cases races) (simp_all add: add_def)

lemma add_store:
  assumes ks: "mer_array_set (hq_keys h) key = Some (ks, is_new, slot)"
    and slot: "slot < length (val_data (hq_vals h))"
    and ms: "merge_step (entry_get (hq_vals h) slot) q (hq_max_val h) = Some y"
    and y: "take_bit (val_bits (hq_vals h)) y = y"
  shows "\<exists>h'. add h key q [] = Inr (True, h')
     \<and> hq_keys h' = ks
     \<and> mer_array_set (hq_keys h') key = Some (hq_keys h', False, slot)
     \<and> val_data (hq_vals h') = (val_data (hq_vals h))[slot := y]
     \<and> val_bits (hq_vals h') = val_bits (hq_vals h)
     \<and> hq_max_val h' = hq_max_val h
     \<and> entry_get (hq_vals h') slot = y"
proof -
  let ?h' = "h\<lparr>hq_keys := ks, hq_vals := entry_set (hq_vals h) slot y\<rparr>"
  have "add h key q [] = Inr (True, ?h')"
    using add_uncontended [OF ks slot, of q] ms by simp
  moreover have "mer_array_set (hq_keys ?h') key = Some (hq_keys ?h', False, slot)"
    using mer_array_set_again [OF ks] by simp
  moreover have "val_data (hq_vals ?h') = (val_data (hq_vals h))[slot := y]"
    by (simp add: entry_set_def y)
  moreover have "entry_get (hq_vals ?h') slot = y"
    using entry_get_set [OF slot, of y] y by simp
  moreover have "val_bits (hq_vals ?h') = val_bits (hq_vals h)" by (simp add: entry_set_def)
  ultimately show ?thesis by simp
qed

lemma add_seq_saturated:
  assumes "mer_array_set (hq_keys h) key = Some (hq_keys h, b, slot)"
    and "slot < length (val_data (hq_vals h))"
    and "\<forall>q \<in> set qs. merge_step (entry_get (hq_vals h) slot) q (hq_max_val h) = None"
  shows "add_seq h key qs = Inr h"
  using assms
proof (induction qs)
  case Nil
  then show ?case by simp
next
  case (Cons q qs)
  from Cons.prems have "add h key q [] = Inr (True, h\<lparr>hq_keys := hq_keys h\<rparr>)"
    by (intro add_saturated) auto
  with Cons show ?case by simp
qed

subsection \<open>The scan and main\<close>

lemma scan_bases_begin: "scan_bases k thresh seq quals 0 qual low_len high_len st = Inr st"
  by (subst scan_bases.simps) simp

lemma scan_job_id: "scan_job k thresh st reads = Inr st"
  by (induction reads) (auto simp: scan_bases_begin)

lemma scan_jobs_id: "scan_jobs k thresh st jobs = Inr st"
  by (induction jobs) (auto simp: scan_job_id)

lemma start_id:
  "start k qc = Inr \<lparr>sc_m = 0, sc_rm = 0, sc_ary = qc_ary qc, sc_calls = []\<rparr>"
  by (simp add: start_def scan_jobs_id)

lemma main_startup_Inl:
  "(\<exists>e. main_startup args output_good = Inl e) =
     ((\<not> min_qual_value_given args \<and> \<not> min_qual_char_given args)
      \<or> length (min_qual_char_arg args) \<noteq> 1
      \<or> bits_arg args < 1 \<or> 63 < bits_arg args
      \<or> \<not> output_good)"
  by (simp add: main_startup_def)

lemma main_startup_error:
  "main_startup args output_good = Inl e \<Longrightarrow> \<exists>msg. e = ArgsError msg \<or> e = Die msg"
  by (auto simp: main_startup_def split: if_splits)

lemma main_startup_Inr:
  "main_startup args output_good = Inr (t, h) \<Longrightarrow>
     h = hash_with_quality_new (size_arg args) (2 * mer_arg args) (bits_arg args) (reprobe_arg args)"
  by (auto simp: main_startup_def split: if_splits)

lemma main_after_startup:
  assumes "main_startup args output_good = Inr (t, h)"
  shows "main L args output_good jobs =
     Inr \<lparr>df_header = Some ((update_from_ary database_header_new (hq_keys h))
                               \<lparr>hdr_bits := nat (bits_arg args)\<rparr>),
          df_body = create_database_write L h []\<rparr>"
  using assms by (simp add: main_def start_id)

lemma query_windows:
  assumes "database_query_new filename (Some f) = Inr dq"
  shows "kr_data (dq_keys dq) = take (hdr_key_bytes (dq_header dq)) (df_body f)
     \<and> vr_data (dq_vals dq)
         = take (hdr_value_bytes (dq_header dq)) (drop (hdr_key_bytes (dq_header dq)) (df_body f))
     \<and> vr_bits (dq_vals dq) = hdr_bits (dq_header dq)"
  using assms
  by (cases "parse_header filename (Some f)") (auto simp: database_query_new_def mapped_def)

section \<open>The claims\<close>

subsection \<open>The merge step of add\<close>

text \<open>
  C1. In a table built for \<open>bits\<close> from 1 to 63 the maximal counter is
  \<open>2 ^ bits - 1\<close>, and for every 64-bit value \<open>x\<close> and every quality class 0 or 1
  the merge step has exactly three branches, in this order: if the stored flag
  \<open>x AND 1\<close> is greater than the quality class (the flag is 1 and the class is 0), the
  new value is the literal 3; else if the counter \<open>drop_bit 1 x\<close> is the maximal
  counter, nothing is stored; else the new value is \<open>x + 2\<close>. Inside \<open>add\<close>: for
  every key that the key store places in a slot and the old packed value \<open>oval\<close> read
  from that slot, an uncontended \<open>add\<close> returns true, stores 3 in the slot in the
  first case, leaves the value array as it is in the second and stores \<open>oval + 2\<close> in
  the third, so that the value read back is 3, \<open>oval\<close> or \<open>oval + 2\<close>; and
  \<open>oval + 2\<close> has the counter one higher and the same flag.
\<close>

theorem add_merge_three_branches:
  fixes oval :: "64 word"
  assumes bits: "1 \<le> bits" "bits \<le> 63"
    and q: "quality = 0 \<or> quality = 1"
    and w: "val_bits (hq_vals h) = nat (bits + 1)"
    and mx: "hq_max_val h = max_val bits"
    and ks: "mer_array_set (hq_keys h) key = Some (ks, is_new, slot)"
    and slot: "slot < length (val_data (hq_vals h))"
    and oval: "oval = entry_get (hq_vals h) slot"
  shows "merge_step x quality (max_val bits) =
          (if (x AND 1) > ucast quality then Some 3
           else if drop_bit 1 x = 2 ^ nat bits - 1 then None
           else Some (x + 2))
     \<and> ((x AND 1) > ucast quality) = (x AND 1 = 1 \<and> quality = 0)
     \<and> (\<exists>v'. add h key quality [] = Inr (True, h\<lparr>hq_keys := ks, hq_vals := v'\<rparr>)
     \<and> v' = (if (oval AND 1) > ucast quality then entry_set (hq_vals h) slot 3
             else if drop_bit 1 oval = 2 ^ nat bits - 1 then hq_vals h
             else entry_set (hq_vals h) slot (oval + 2))
     \<and> entry_get v' slot = (if (oval AND 1) > ucast quality then 3
             else if drop_bit 1 oval = 2 ^ nat bits - 1 then oval
             else oval + 2)
     \<and> (\<not> (oval AND 1) > ucast quality \<and> drop_bit 1 oval \<noteq> 2 ^ nat bits - 1 \<longrightarrow>
          drop_bit 1 (oval + 2) = drop_bit 1 oval + 1 \<and> (oval + 2) AND 1 = oval AND 1))"
proof -
  define b where "b = nat bits"
  have b: "1 \<le> b" "b \<le> 63" "nat (bits + 1) = Suc b" using bits by (auto simp: b_def)
  have mv: "hq_max_val h = 2 ^ b - 1" using mx max_val_eq [OF bits] by (simp add: b_def)
  have r: "unat oval < 2 ^ Suc b"
    using unat_take_bit_less [of "Suc b"] by (simp add: oval entry_get_def w b)
  have gs: "entry_get (entry_set (hq_vals h) slot x) slot = take_bit (Suc b) x" for x
    using entry_get_set [OF slot] by (simp only: w b)
  have t3: "entry_get (entry_set (hq_vals h) slot 3) slot = 3"
    by (simp only: gs take_bit_3 [OF b(1)])
  have inc': "entry_get (entry_set (hq_vals h) slot (oval + 2)) slot = oval + 2
      \<and> drop_bit 1 (oval + 2) = drop_bit 1 oval + 1 \<and> (oval + 2) AND 1 = oval AND 1"
    if c: "drop_bit 1 oval \<noteq> 2 ^ b - 1"
    using incr_fields [OF r b(2) c] by (simp only: gs)
  have ms: "merge_step oval quality (hq_max_val h) =
     (if (oval AND 1) > ucast quality then Some 3
      else if drop_bit 1 oval = 2 ^ b - 1 then None else Some (oval + 2))"
    by (simp only: merge_step_def mv)
  consider (down) "(oval AND 1) > ucast quality"
    | (sat) "\<not> (oval AND 1) > ucast quality" "drop_bit 1 oval = 2 ^ b - 1"
    | (inc) "\<not> (oval AND 1) > ucast quality" "drop_bit 1 oval \<noteq> 2 ^ b - 1"
    by blast
  then have the_add: "\<exists>v'. add h key quality [] = Inr (True, h\<lparr>hq_keys := ks, hq_vals := v'\<rparr>)
     \<and> v' = (if (oval AND 1) > ucast quality then entry_set (hq_vals h) slot 3
             else if drop_bit 1 oval = 2 ^ nat bits - 1 then hq_vals h
             else entry_set (hq_vals h) slot (oval + 2))
     \<and> entry_get v' slot = (if (oval AND 1) > ucast quality then 3
             else if drop_bit 1 oval = 2 ^ nat bits - 1 then oval
             else oval + 2)
     \<and> (\<not> (oval AND 1) > ucast quality \<and> drop_bit 1 oval \<noteq> 2 ^ nat bits - 1 \<longrightarrow>
          drop_bit 1 (oval + 2) = drop_bit 1 oval + 1 \<and> (oval + 2) AND 1 = oval AND 1)"
  proof cases
    case down
    then show ?thesis
      unfolding add_uncontended [OF ks slot] b_def [symmetric] oval [symmetric] ms
      using t3 by simp
  next
    case sat
    then show ?thesis
      unfolding add_uncontended [OF ks slot] b_def [symmetric] oval [symmetric] ms
      by (simp add: oval)
  next
    case inc
    then show ?thesis
      unfolding add_uncontended [OF ks slot] b_def [symmetric] oval [symmetric] ms
      using inc' by simp
  qed
  have step: "merge_step x quality (max_val bits) =
          (if (x AND 1) > ucast quality then Some 3
           else if drop_bit 1 x = 2 ^ nat bits - 1 then None
           else Some (x + 2))"
    by (simp only: merge_step_def max_val_eq [OF bits])
  from step flag_gt_iff [OF q, of x] the_add show ?thesis by (intro conjI)
qed

theorem add_merge_three_branches_witness:
  "mer_array_set (hq_keys (hash_with_quality_new 5 6 7 126)) 6
     = Some ((hq_keys (hash_with_quality_new 5 6 7 126))
               \<lparr>slots := [None, None, None, None, None, None, Some 6, None]\<rparr>, True, 6)
   \<and> entry_get (hq_vals (hash_with_quality_new 5 6 7 126)) 6 = 0
   \<and> (\<exists>v'. add (hash_with_quality_new 5 6 7 126) 6 1 [] =
          Inr (True, (hash_with_quality_new 5 6 7 126)
             \<lparr>hq_keys := (hq_keys (hash_with_quality_new 5 6 7 126))
                  \<lparr>slots := [None, None, None, None, None, None, Some 6, None]\<rparr>,
              hq_vals := v'\<rparr>)
        \<and> entry_get v' 6 = 2 \<and> drop_bit 1 (2 :: 64 word) = 1 \<and> (2 :: 64 word) AND 1 = 0)"
proof -
  let ?h = "hash_with_quality_new 5 6 7 126"
  let ?ks = "(hq_keys ?h)\<lparr>slots := [None, None, None, None, None, None, Some 6, None]\<rparr>"
  have b: "(1::int) \<le> 7" "(7::int) \<le> 63" by simp_all
  have q: "(1::32 word) = 0 \<or> (1::32 word) = 1" by simp
  have w: "val_bits (hq_vals ?h) = nat (7 + 1)" by code_simp
  have mx: "hq_max_val ?h = max_val 7" by code_simp
  have ks: "mer_array_set (hq_keys ?h) 6 = Some (?ks, True, 6)" by code_simp
  have slot: "6 < length (val_data (hq_vals ?h))" by code_simp
  have oval: "(0::64 word) = entry_get (hq_vals ?h) 6" by code_simp
  from add_merge_three_branches [OF b q w mx ks slot oval, of 0] ks oval
  show ?thesis by auto
qed

subsection \<open>The scanner\<close>

text \<open>
  C2. The loop over the bases of a read starts with \<open>base\<close> at \<open>seq.begin()\<close> and
  runs while \<open>base\<close> differs from \<open>seq.begin()\<close>, so its body is never run: for
  every read, every job and every list of jobs the scan returns its state as it was, and
  \<open>start\<close> ends with the table it was given and with no call of \<open>add\<close> made.
\<close>

theorem scanner_never_runs:
  "scan_bases k thresh seq quals 0 0 0 0 st = Inr st
   \<and> scan_job k thresh st reads = Inr st
   \<and> scan_jobs k thresh st jobs = Inr st
   \<and> start k \<lparr>qc_ary = h, qc_parser = jobs, qc_qual_thresh = thresh\<rparr>
       = Inr \<lparr>sc_m = 0, sc_rm = 0, sc_ary = h, sc_calls = []\<rparr>"
  by (simp add: scan_bases_begin scan_job_id scan_jobs_id start_id)

text \<open>
  C3, as stated, fails. With \<open>k = 3\<close>, a table of 16 slots and the threshold \<open>#\<close>
  below every quality of the read, \<open>start\<close> on the single read ACGT makes no call of
  \<open>add\<close> and leaves every slot empty and every value 0; and one call of \<open>add\<close>
  with quality class 1 for a new key (here 6, the k-mer ACG) leaves 2 in its slot,
  not 3.
\<close>

theorem acgt_counterexample:
  "start 3 \<lparr>qc_ary = hash_with_quality_new 16 6 7 126, qc_parser = [[(''ACGT'', ''IIII'')]],
            qc_qual_thresh = CHR ''#''\<rparr>
     = Inr \<lparr>sc_m = 0, sc_rm = 0, sc_ary = hash_with_quality_new 16 6 7 126, sc_calls = []\<rparr>
   \<and> slots (hq_keys (hash_with_quality_new 16 6 7 126)) = replicate 16 None
   \<and> val_data (hq_vals (hash_with_quality_new 16 6 7 126)) = replicate 16 0
   \<and> add (hash_with_quality_new 16 6 7 126) 6 1 []
     = Inr (True, \<lparr>hq_keys = \<lparr>slots = (replicate 16 None)[6 := Some 6],
                         key_len = 6, val_len = 0, max_reprobe = 126\<rparr>,
            hq_vals = \<lparr>val_bits = 8, val_data = (replicate 16 0)[6 := 2]\<rparr>,
            hq_max_val = 127\<rparr>)"
  by code_simp

text \<open>
  C3, as amended. In a fresh table for \<open>bits\<close> from 1 to 63, recording a k-mer once
  with quality class 1 returns true, takes the slot of the k-mer and leaves the packed
  value 2 (counter 1, flag 0) there, every other slot staying empty with value 0.
\<close>

theorem record_once_high_quality:
  assumes bits: "1 \<le> bits" "bits \<le> 63"
  shows "\<exists>h'. add (hash_with_quality_new sz kl bits r) key 1 [] = Inr (True, h')
     \<and> slots (hq_keys h') =
          (replicate (mer_array_size (hq_keys (hash_with_quality_new sz kl bits r))) None)
            [key mod mer_array_size (hq_keys (hash_with_quality_new sz kl bits r)) := Some key]
     \<and> val_data (hq_vals h') =
          (replicate (mer_array_size (hq_keys (hash_with_quality_new sz kl bits r))) 0)
            [key mod mer_array_size (hq_keys (hash_with_quality_new sz kl bits r)) := 2]
     \<and> drop_bit 1 (2 :: 64 word) = 1 \<and> (2 :: 64 word) AND 1 = 0"
proof -
  let ?h0 = "hash_with_quality_new sz kl bits r"
  let ?n = "mer_array_size (hq_keys ?h0)"
  let ?slot = "key mod ?n"
  note f = fresh_table [of sz kl bits r]
  have slot0: "?slot < length (val_data (hq_vals ?h0))" using f(1) by (simp add: f(3))
  have get0: "entry_get (hq_vals ?h0) ?slot = 0"
    using f(1) by (simp add: entry_get_def f(3))
  have "(2::nat) ^ 2 \<le> 2 ^ nat (bits + 1)" using bits(1) by (intro power_increasing) auto
  then have "unat (2 :: 64 word) < 2 ^ nat (bits + 1)" by simp
  then have tb: "take_bit (nat (bits + 1)) (2 :: 64 word) = 2" by (rule take_bit_unat_less)
  have ms: "merge_step (entry_get (hq_vals ?h0) ?slot) 1 (hq_max_val ?h0) = Some 2"
    using merge_step_fresh [OF bits] by (simp only: get0 f(5))
  have tb': "take_bit (val_bits (hq_vals ?h0)) (2 :: 64 word) = 2" using tb by (simp only: f(4))
  from add_store [OF f(6) slot0 ms tb']
  obtain h' where h': "add ?h0 key 1 [] = Inr (True, h')"
      "hq_keys h' = (hq_keys ?h0)\<lparr>slots := (replicate ?n None)[?slot := Some key]\<rparr>"
      "val_data (hq_vals h') = (val_data (hq_vals ?h0))[?slot := 2]"
    by blast
  have d: "drop_bit 1 (2 :: 64 word) = 1" "(2 :: 64 word) AND 1 = 0"
    by (simp_all add: drop_bit_eq_div and_one_eq)
  from h' d show ?thesis by (simp add: f(3))
qed

theorem record_once_high_quality_witness:
  "(1 :: int) \<le> 7 \<and> (7 :: int) \<le> 63
   \<and> mer_array_size (hq_keys (hash_with_quality_new 16 6 7 126)) = 16
   \<and> (\<exists>h'. add (hash_with_quality_new 16 6 7 126) 6 1 [] = Inr (True, h')
     \<and> slots (hq_keys h') = (replicate 16 None)[6 := Some 6]
     \<and> val_data (hq_vals h') = (replicate 16 0)[6 := 2])"
proof -
  have b: "(1 :: int) \<le> 7" "(7 :: int) \<le> 63" by simp_all
  have n: "mer_array_size (hq_keys (hash_with_quality_new 16 6 7 126)) = 16" by code_simp
  from record_once_high_quality [OF b, of 16 6 126 6] b n show ?thesis by simp
qed

subsection \<open>Sequences of observations on a fresh slot\<close>

text \<open>
  C4, as stated, fails. In a fresh table with \<open>bits = 7\<close>, the calls of \<open>add\<close> for
  one key with the classes 0, 1, 0 take the third branch each time and leave 6 in the
  slot, not 3. With \<open>bits = 1\<close> the counter is at its maximum after one call, and
  the classes 0, 0 leave 2 in the slot, the counter at 1.
\<close>

theorem fresh_slot_sequences_counterexample:
  "add_seq (hash_with_quality_new 5 6 7 126) 6 [0, 1, 0]
     = Inr \<lparr>hq_keys = \<lparr>slots = [None, None, None, None, None, None, Some 6, None],
                         key_len = 6, val_len = 0, max_reprobe = 126\<rparr>,
            hq_vals = \<lparr>val_bits = 8, val_data = [0, 0, 0, 0, 0, 0, 6, 0]\<rparr>,
            hq_max_val = 127\<rparr>
   \<and> (6 :: 64 word) \<noteq> 3
   \<and> merge_step 0 0 (max_val 7) = Some 2 \<and> merge_step 2 1 (max_val 7) = Some 4
   \<and> merge_step 4 0 (max_val 7) = Some 6
   \<and> add_seq (hash_with_quality_new 5 6 1 126) 6 [0, 0]
     = Inr \<lparr>hq_keys = \<lparr>slots = [None, None, None, None, None, None, Some 6, None],
                         key_len = 6, val_len = 0, max_reprobe = 126\<rparr>,
            hq_vals = \<lparr>val_bits = 2, val_data = [0, 0, 0, 0, 0, 0, 2, 0]\<rparr>,
            hq_max_val = 1\<rparr>
   \<and> drop_bit 1 (2 :: 64 word) = 1"
  by code_simp

text \<open>
  C4, as amended. In a fresh table for \<open>bits\<close> from 2 to 63, the calls of \<open>add\<close>
  for one key with the classes 0, 0 leave the value 4 in the slot of the key (counter 2,
  flag 0); with the classes 0, 1, 0 they leave 6 (counter 3, flag 0): every merge step
  on the way takes the third branch, the stored flag stays 0 and the downgrade branch is
  not reached.
\<close>

theorem fresh_slot_sequences:
  assumes bits: "2 \<le> bits" "bits \<le> 63"
  shows "\<exists>slot h2 h3.
       add_seq (hash_with_quality_new sz kl bits r) key [0, 0] = Inr h2
     \<and> slots (hq_keys h2) ! slot = Some key \<and> entry_get (hq_vals h2) slot = 4
     \<and> add_seq (hash_with_quality_new sz kl bits r) key [0, 1, 0] = Inr h3
     \<and> slots (hq_keys h3) ! slot = Some key \<and> entry_get (hq_vals h3) slot = 6
     \<and> drop_bit 1 (4 :: 64 word) = 2 \<and> (4 :: 64 word) AND 1 = 0
     \<and> drop_bit 1 (6 :: 64 word) = 3 \<and> (6 :: 64 word) AND 1 = 0
     \<and> merge_step 0 0 (max_val bits) = Some 2 \<and> merge_step 2 0 (max_val bits) = Some 4
     \<and> merge_step 2 1 (max_val bits) = Some 4 \<and> merge_step 4 0 (max_val bits) = Some 6"
proof -
  let ?h0 = "hash_with_quality_new sz kl bits r"
  let ?n = "mer_array_size (hq_keys ?h0)"
  let ?slot = "key mod ?n"
  let ?w = "nat (bits + 1)"
  have b1: "1 \<le> bits" using bits by simp
  note f = fresh_table [of sz kl bits r]
  have slot0: "?slot < length (val_data (hq_vals ?h0))" using f(1) by (simp add: f(3))
  have get0: "entry_get (hq_vals ?h0) ?slot = 0"
    using f(1) by (simp add: entry_get_def f(3))
  have tb: "take_bit ?w (2 :: 64 word) = 2" "take_bit ?w (4 :: 64 word) = 4"
    "take_bit ?w (6 :: 64 word) = 6"
    using take_bit_small [OF bits(1)] by simp_all
  \<comment> \<open>the first call, which inserts the key\<close>
  have "\<exists>h1. add ?h0 key q [] = Inr (True, h1)
     \<and> mer_array_set (hq_keys h1) key = Some (hq_keys h1, False, ?slot)
     \<and> length (val_data (hq_vals h1)) = ?n
     \<and> val_bits (hq_vals h1) = ?w \<and> hq_max_val h1 = max_val bits
     \<and> entry_get (hq_vals h1) ?slot = 2" for q
    using add_store [OF f(6) slot0, of q 2] merge_step_fresh [OF b1 bits(2)] tb
    by (auto simp: get0 f(3) f(4) f(5))
  then obtain h1 where h1: "add ?h0 key 0 [] = Inr (True, h1)"
      "mer_array_set (hq_keys h1) key = Some (hq_keys h1, False, ?slot)"
      "length (val_data (hq_vals h1)) = ?n"
      "val_bits (hq_vals h1) = ?w" "hq_max_val h1 = max_val bits"
      "entry_get (hq_vals h1) ?slot = 2"
    by blast
  \<comment> \<open>a later call, on a slot that holds \<open>x\<close> and gets \<open>y\<close>\<close>
  have step: "\<exists>h'. add h key q [] = Inr (True, h')
     \<and> mer_array_set (hq_keys h') key = Some (hq_keys h', False, ?slot)
     \<and> length (val_data (hq_vals h')) = ?n
     \<and> val_bits (hq_vals h') = ?w \<and> hq_max_val h' = max_val bits
     \<and> entry_get (hq_vals h') ?slot = y"
    if "mer_array_set (hq_keys h) key = Some (hq_keys h, False, ?slot)"
      "length (val_data (hq_vals h)) = ?n"
      "val_bits (hq_vals h) = ?w" "hq_max_val h = max_val bits"
      "merge_step (entry_get (hq_vals h) ?slot) q (max_val bits) = Some y"
      "take_bit ?w y = y"
    for h q y
  proof -
    have "?slot < length (val_data (hq_vals h))" using f(1) that(2) by simp
    from add_store [OF that(1) this, of q y] that show ?thesis by auto
  qed
  from step [OF h1(2-5), of 0 4] h1(6) merge_step_low [OF bits] tb
  obtain h2 where h2: "add h1 key 0 [] = Inr (True, h2)"
      "mer_array_set (hq_keys h2) key = Some (hq_keys h2, False, ?slot)"
      "entry_get (hq_vals h2) ?slot = 4"
    by auto
  from step [OF h1(2-5), of 1 4] h1(6) merge_step_low [OF bits] tb
  obtain h2' where h2': "add h1 key 1 [] = Inr (True, h2')"
      "mer_array_set (hq_keys h2') key = Some (hq_keys h2', False, ?slot)"
      "length (val_data (hq_vals h2')) = ?n"
      "val_bits (hq_vals h2') = ?w" "hq_max_val h2' = max_val bits"
      "entry_get (hq_vals h2') ?slot = 4"
    by auto
  from step [OF h2'(2-5), of 0 6] h2'(6) merge_step_low [OF bits] tb
  obtain h3 where h3: "add h2' key 0 [] = Inr (True, h3)"
      "mer_array_set (hq_keys h3) key = Some (hq_keys h3, False, ?slot)"
      "entry_get (hq_vals h3) ?slot = 6"
    by auto
  have s2: "add_seq ?h0 key [0, 0] = Inr h2" by (simp add: h1(1) h2(1))
  have s3: "add_seq ?h0 key [0, 1, 0] = Inr h3" by (simp add: h1(1) h2'(1) h3(1))
  have k2: "slots (hq_keys h2) ! ?slot = Some key" using mer_array_set_slot [OF h2(2)] by simp
  have k3: "slots (hq_keys h3) ! ?slot = Some key" using mer_array_set_slot [OF h3(2)] by simp
  have d: "drop_bit 1 (4 :: 64 word) = 2" "(4 :: 64 word) AND 1 = 0"
     "drop_bit 1 (6 :: 64 word) = 3" "(6 :: 64 word) AND 1 = 0"
    by (simp_all add: drop_bit_eq_div and_one_eq)
  from s2 s3 k2 k3 h2(3) h3(3) d merge_step_fresh [OF b1 bits(2)] merge_step_low [OF bits]
  show ?thesis by blast
qed

theorem fresh_slot_sequences_witness:
  "(2 :: int) \<le> 7 \<and> (7 :: int) \<le> 63
   \<and> (\<exists>slot h2 h3.
       add_seq (hash_with_quality_new 5 6 7 126) 6 [0, 0] = Inr h2
     \<and> slots (hq_keys h2) ! slot = Some 6 \<and> entry_get (hq_vals h2) slot = 4
     \<and> add_seq (hash_with_quality_new 5 6 7 126) 6 [0, 1, 0] = Inr h3
     \<and> slots (hq_keys h3) ! slot = Some 6 \<and> entry_get (hq_vals h3) slot = 6)"
proof -
  have b: "(2 :: int) \<le> 7" "(7 :: int) \<le> 63" by simp_all
  from fresh_slot_sequences [OF b, of 5 6 126 6] b show ?thesis by blast
qed

subsection \<open>Saturation\<close>

text \<open>
  C5, as stated, fails. The downgrade branch comes first: with \<open>bits = 2\<close>, the value
  7 has its counter at the maximum 3 and its flag set, and an observation of class 0
  replaces it by 3.
\<close>

theorem saturated_downgrade_counterexample:
  "drop_bit 1 (7 :: 64 word) = 2 ^ 2 - 1
   \<and> merge_step 7 0 (max_val 2) = Some 3
   \<and> add \<lparr>hq_keys = \<lparr>slots = [Some 0], key_len = 6, val_len = 0, max_reprobe = 0\<rparr>,
           hq_vals = \<lparr>val_bits = 3, val_data = [7]\<rparr>, hq_max_val = max_val 2\<rparr> 0 0 []
       = Inr (True, \<lparr>hq_keys = \<lparr>slots = [Some 0], key_len = 6, val_len = 0, max_reprobe = 0\<rparr>,
           hq_vals = \<lparr>val_bits = 3, val_data = [3]\<rparr>, hq_max_val = max_val 2\<rparr>)"
  by (simp add: merge_step_def max_val_def add_def mer_array_set_def entry_get_def entry_set_def)

text \<open>
  C5, as amended. In a table for \<open>bits\<close> from 1 to 63, let the slot of a key hold a
  value whose counter is \<open>2 ^ bits - 1\<close>. For every quality class that does not
  trigger the downgrade branch (the stored flag is not greater than the class), the
  merge step leaves without a store and \<open>add\<close> returns true with the value array
  unchanged, whatever races are lost; and any number of further such calls leave it
  unchanged as well.
\<close>

theorem saturated_is_fixed_point:
  assumes bits: "1 \<le> bits" "bits \<le> 63"
    and mx: "hq_max_val h = max_val bits"
    and len: "length (val_data (hq_vals h)) = mer_array_size (hq_keys h)"
    and ks: "mer_array_set (hq_keys h) key = Some (ks, is_new, slot)"
    and sat: "drop_bit 1 (entry_get (hq_vals h) slot) = 2 ^ nat bits - 1"
    and qs: "\<forall>q \<in> set (q # qs). \<not> (entry_get (hq_vals h) slot AND 1) > ucast q"
  shows "merge_step (entry_get (hq_vals h) slot) q (max_val bits) = None
     \<and> add h key q races = Inr (True, h\<lparr>hq_keys := ks\<rparr>)
     \<and> add_seq h key (q # qs) = Inr (h\<lparr>hq_keys := ks\<rparr>)"
proof -
  let ?v = "entry_get (hq_vals h) slot"
  have ms: "merge_step ?v q' (hq_max_val h) = None" if "q' \<in> set (q # qs)" for q'
    using downgrade_not_taken [OF bits sat] qs that by (simp only: mx) blast
  from mer_array_set_slot [OF ks] len have slot: "slot < length (val_data (hq_vals h))" by simp
  have 1: "add h key q races = Inr (True, h\<lparr>hq_keys := ks\<rparr>)" for races
    using add_saturated [OF ks slot] ms by simp
  let ?h1 = "h\<lparr>hq_keys := ks\<rparr>"
  have "add_seq ?h1 key qs = Inr ?h1"
  proof (rule add_seq_saturated)
    show "mer_array_set (hq_keys ?h1) key = Some (hq_keys ?h1, False, slot)"
      using mer_array_set_again [OF ks] by simp
    show "slot < length (val_data (hq_vals ?h1))" using slot by simp
    show "\<forall>q \<in> set qs. merge_step (entry_get (hq_vals ?h1) slot) q (hq_max_val ?h1) = None"
      using ms by simp
  qed
  then have 2: "add_seq h key (q # qs) = Inr ?h1" by (simp add: 1)
  from ms [of q] 1 2 show ?thesis by (simp add: mx)
qed

theorem saturated_is_fixed_point_witness:
  "mer_array_set (hq_keys one_slot_table) 0 = Some (hq_keys one_slot_table, False, 0)
   \<and> drop_bit 1 (entry_get (hq_vals one_slot_table) 0) = 2 ^ nat 1 - 1
   \<and> \<not> (entry_get (hq_vals one_slot_table) 0 AND 1) > ucast (0 :: 32 word)
   \<and> \<not> (entry_get (hq_vals one_slot_table) 0 AND 1) > ucast (1 :: 32 word)
   \<and> merge_step (entry_get (hq_vals one_slot_table) 0) 0 (max_val 1) = None
   \<and> add one_slot_table 0 0 [] = Inr (True, one_slot_table)
   \<and> add_seq one_slot_table 0 [0, 1, 0] = Inr one_slot_table"
proof -
  have b: "(1::int) \<le> 1" "(1::int) \<le> 63" by simp_all
  have mx: "hq_max_val one_slot_table = max_val 1" by (simp add: one_slot_table_def max_val_def)
  have len: "length (val_data (hq_vals one_slot_table)) = mer_array_size (hq_keys one_slot_table)"
    by (simp add: one_slot_table_def mer_array_size_def)
  have ks: "mer_array_set (hq_keys one_slot_table) 0 = Some (hq_keys one_slot_table, False, 0)"
    by (simp add: one_slot_table_def mer_array_set_def)
  have sat: "drop_bit 1 (entry_get (hq_vals one_slot_table) 0) = 2 ^ nat 1 - 1"
    by (simp add: one_slot_table_def entry_get_def)
  have qs: "\<forall>q \<in> set ((0 :: 32 word) # [1, 0]). \<not> (entry_get (hq_vals one_slot_table) 0 AND 1) > ucast q"
    by (simp add: one_slot_table_def entry_get_def)
  from saturated_is_fixed_point [OF b mx len ks sat qs, of "[]"] ks sat qs
  show ?thesis by (simp del: add_seq.simps)
qed

subsection \<open>Writing and reading back\<close>

text \<open>
  C6 fails on the code. The table \<open>one_slot_table\<close> is what \<open>add(0, 1)\<close> makes of
  the fresh table \<open>hash_with_quality(1, 6, 1, 0)\<close>. Written by the \<open>write\<close> of the
  database-creation program, its value bytes come first and its key bytes second.
  \<open>database_query\<close> takes the key array from the start of the bytes and the value
  array \<open>key_bytes\<close> further, so that, even under a header with the format tag set
  and the true lengths of both sections, it takes the value bytes for the key array
  and the key bytes for the value array, and reads the values with the width \<open>bits\<close>
  of the header where the table has \<open>bits + 1\<close>.
\<close>

theorem round_trip_fails:
  "add (hash_with_quality_new 1 6 1 0) 0 1 [] = Inr (True, one_slot_table)
   \<and> key_image example_layout (hq_keys one_slot_table) = [1]
   \<and> val_image example_layout (hq_vals one_slot_table) = [2]
   \<and> create_database_write example_layout one_slot_table [] = [2, 1]
   \<and> database_query_new ''db''
        (Some \<lparr>df_header = Some example_header,
               df_body = create_database_write example_layout one_slot_table []\<rparr>)
       = Inr \<lparr>dq_header = example_header, dq_file = [2, 1],
              dq_keys = \<lparr>kr_data = [2], kr_size = 1, kr_key_len = 6, kr_val_len = 0,
                         kr_max_reprobe = 0\<rparr>,
              dq_vals = \<lparr>vr_data = [1], vr_bits = 1, vr_size = 1\<rparr>\<rparr>
   \<and> val_bits (hq_vals one_slot_table) = 2"
  by (simp add: add_def mer_array_set_def hash_with_quality_new_def mer_array_new_def
      mer_array_size_def val_array_new_def max_val_def entry_get_def entry_set_def
      merge_step_def one_slot_table_def example_layout_def create_database_write_def
      database_query_new_def parse_header_def check_format_def example_header_def mapped_def)

text \<open>
  C7, as stated, fails for the \<open>write\<close> of \<open>mer_database.hpp\<close>, which puts the key
  array first.
\<close>

theorem write_order_counterexample:
  "val_image example_layout (hq_vals one_slot_table) = [2]
   \<and> key_image example_layout (hq_keys one_slot_table) = [1]
   \<and> mer_database_write example_layout one_slot_table [] = [1, 2]
   \<and> mer_database_write example_layout one_slot_table []
       \<noteq> val_image example_layout (hq_vals one_slot_table)
           @ key_image example_layout (hq_keys one_slot_table)"
  by (simp add: mer_database_write_def example_layout_def one_slot_table_def)

text \<open>
  C7, as amended. Under every layout of the two arrays, the \<open>write\<close> of the
  database-creation program appends the value array and then the key array, and the
  file that \<open>main\<close> writes is the header followed by the value section and then the
  key section of the table; the \<open>write\<close> of \<open>mer_database.hpp\<close> appends the key
  array and then the value array.
\<close>

theorem write_order:
  "create_database_write L h os = os @ val_image L (hq_vals h) @ key_image L (hq_keys h)
   \<and> mer_database_write L h os = os @ key_image L (hq_keys h) @ val_image L (hq_vals h)
   \<and> (\<forall>f. main L args output_good jobs = Inr f \<longrightarrow>
         (\<exists>hdr. df_header f = Some hdr)
         \<and> df_body f =
             val_image L (hq_vals (hash_with_quality_new (size_arg args) (2 * mer_arg args)
                 (bits_arg args) (reprobe_arg args)))
             @ key_image L (hq_keys (hash_with_quality_new (size_arg args) (2 * mer_arg args)
                 (bits_arg args) (reprobe_arg args))))"
proof (intro conjI allI impI)
  show "create_database_write L h os = os @ val_image L (hq_vals h) @ key_image L (hq_keys h)"
    by (simp add: create_database_write_def)
  show "mer_database_write L h os = os @ key_image L (hq_keys h) @ val_image L (hq_vals h)"
    by (simp add: mer_database_write_def)
next
  fix f assume m: "main L args output_good jobs = Inr f"
  then obtain t h where s: "main_startup args output_good = Inr (t, h)"
    by (cases "main_startup args output_good") (auto simp: main_def)
  from main_after_startup [OF s, of L jobs] m
  have f: "f = \<lparr>df_header = Some ((update_from_ary database_header_new (hq_keys h))
                               \<lparr>hdr_bits := nat (bits_arg args)\<rparr>),
                df_body = create_database_write L h []\<rparr>" by simp
  show "\<exists>hdr. df_header f = Some hdr" by (simp add: f)
  show "df_body f =
             val_image L (hq_vals (hash_with_quality_new (size_arg args) (2 * mer_arg args)
                 (bits_arg args) (reprobe_arg args)))
             @ key_image L (hq_keys (hash_with_quality_new (size_arg args) (2 * mer_arg args)
                 (bits_arg args) (reprobe_arg args)))"
    using main_startup_Inr [OF s] by (simp add: f create_database_write_def)
qed

theorem write_order_witness:
  "(\<exists>f. main example_layout example_args True [[(''ACGT'', ''IIII'')]] = Inr f
      \<and> df_body f = replicate 16 0 @ replicate 16 0)
   \<and> val_image example_layout (hq_vals (hash_with_quality_new 16 6 7 126)) = replicate 16 0
   \<and> key_image example_layout (hq_keys (hash_with_quality_new 16 6 7 126)) = replicate 16 0"
proof -
  have a: "main_startup example_args True = Inr (CHR ''#'', hash_with_quality_new 16 6 7 126)"
    by (simp add: main_startup_def example_args_def)
  from main_after_startup [OF a, of example_layout "[[(''ACGT'', ''IIII'')]]"]
  obtain f where f: "main example_layout example_args True [[(''ACGT'', ''IIII'')]] = Inr f"
    by blast
  have v: "val_image example_layout (hq_vals (hash_with_quality_new 16 6 7 126)) = replicate 16 0"
    by code_simp
  have k: "key_image example_layout (hq_keys (hash_with_quality_new 16 6 7 126)) = replicate 16 0"
    by code_simp
  have e: "hash_with_quality_new (size_arg example_args) (2 * mer_arg example_args)
      (bits_arg example_args) (reprobe_arg example_args) = hash_with_quality_new 16 6 7 126"
    by (simp add: example_args_def)
  from write_order [of example_layout _ _ example_args True "[[(''ACGT'', ''IIII'')]]"] f
  have "df_body f = val_image example_layout (hq_vals (hash_with_quality_new 16 6 7 126))
     @ key_image example_layout (hq_keys (hash_with_quality_new 16 6 7 126))"
    unfolding e by blast
  with f v k show ?thesis by simp
qed

subsection \<open>The result of add\<close>

text \<open>
  C8. In a table whose value array has one entry for each slot of the key store, as the
  constructor makes it, \<open>add\<close> returns false (and leaves the table as it is) exactly
  when the insert-or-find of the key store reports that no slot is available. Whenever
  the key store yields a slot, \<open>add\<close> returns true, whatever races are lost on the
  way; this includes the case where the merge step finds the counter at its maximum
  and leaves without a store, the value array unchanged.
\<close>

theorem add_false_iff_exhausted:
  assumes len: "length (val_data (hq_vals h)) = mer_array_size (hq_keys h)"
  shows "(add h key quality races = Inr (False, h)) = (mer_array_set (hq_keys h) key = None)
     \<and> (mer_array_set (hq_keys h) key \<noteq> None \<longrightarrow> (\<exists>h'. add h key quality races = Inr (True, h')))
     \<and> (\<forall>ks is_new slot.
           mer_array_set (hq_keys h) key = Some (ks, is_new, slot)
           \<and> merge_step (entry_get (hq_vals h) slot) quality (hq_max_val h) = None
           \<longrightarrow> add h key quality races = Inr (True, h\<lparr>hq_keys := ks\<rparr>))"
proof (cases "mer_array_set (hq_keys h) key")
  case None
  then show ?thesis by (simp add: add_def)
next
  case (Some r)
  obtain ks is_new slot where r: "r = (ks, is_new, slot)" by (cases r)
  from Some r mer_array_set_slot [of "hq_keys h" key ks is_new slot] len
  have slot: "slot < length (val_data (hq_vals h))" by simp
  have t: "\<exists>h'. add h key quality races = Inr (True, h')"
    using Some r slot by (simp add: add_def)
  then have f: "add h key quality races \<noteq> Inr (False, h)" by auto
  have s: "merge_step (entry_get (hq_vals h) slot) quality (hq_max_val h) = None
       \<Longrightarrow> add h key quality races = Inr (True, h\<lparr>hq_keys := ks\<rparr>)"
    using add_saturated [of h key ks is_new slot quality races] Some r slot by simp
  from t f s Some r show ?thesis by simp
qed

theorem add_false_iff_exhausted_witness:
  "length (val_data (hq_vals one_slot_table)) = mer_array_size (hq_keys one_slot_table)
   \<and> mer_array_set (hq_keys one_slot_table) 1 = None
   \<and> add one_slot_table 1 0 [] = Inr (False, one_slot_table)
   \<and> mer_array_set (hq_keys one_slot_table) 0 = Some (hq_keys one_slot_table, False, 0)
   \<and> merge_step (entry_get (hq_vals one_slot_table) 0) 0 (hq_max_val one_slot_table) = None
   \<and> add one_slot_table 0 0 [] = Inr (True, one_slot_table)"
proof -
  have len: "length (val_data (hq_vals one_slot_table)) = mer_array_size (hq_keys one_slot_table)"
    by (simp add: one_slot_table_def mer_array_size_def)
  have full: "mer_array_set (hq_keys one_slot_table) 1 = None"
    by (simp add: one_slot_table_def mer_array_set_def)
  have found: "mer_array_set (hq_keys one_slot_table) 0 = Some (hq_keys one_slot_table, False, 0)"
    by (simp add: one_slot_table_def mer_array_set_def)
  have sat: "merge_step (entry_get (hq_vals one_slot_table) 0) 0 (hq_max_val one_slot_table) = None"
    by (simp add: one_slot_table_def entry_get_def merge_step_def)
  from add_false_iff_exhausted [OF len, of 1 0 "[]"] full
  have 1: "add one_slot_table 1 0 [] = Inr (False, one_slot_table)" by blast
  from add_false_iff_exhausted [OF len, of 0 0 "[]"] found sat
  have "add one_slot_table 0 0 [] = Inr (True, one_slot_table\<lparr>hq_keys := hq_keys one_slot_table\<rparr>)"
    by blast
  then have 2: "add one_slot_table 0 0 [] = Inr (True, one_slot_table)" by simp
  from len full found sat 1 2 show ?thesis by blast
qed

subsection \<open>The checks of main\<close>

text \<open>
  C9, as stated, fails. A command line that gives the quality character as the empty
  string, with a bit width of 7 and a writable output, shows none of the listed
  violations (a threshold is given, the character input is not longer than one
  character), and \<open>main\<close> rejects it.
\<close>

theorem startup_counterexample:
  "main_startup (example_args\<lparr>min_qual_char_arg := []\<rparr>) True
      = Inl (ArgsError ''The min-qual-char should be one ASCII character.'')
   \<and> min_qual_char_given (example_args\<lparr>min_qual_char_arg := []\<rparr>)
   \<and> \<not> 1 < length (min_qual_char_arg (example_args\<lparr>min_qual_char_arg := []\<rparr>))
   \<and> 1 \<le> bits_arg (example_args\<lparr>min_qual_char_arg := []\<rparr>)
   \<and> bits_arg (example_args\<lparr>min_qual_char_arg := []\<rparr>) \<le> 63"
  by (simp add: main_startup_def example_args_def)

text \<open>
  C9, as amended. \<open>main\<close> ends with a fatal error before the table is built when
  neither threshold is given; and when the quality character is given, it does so
  exactly when that argument is not one character long, or the bit width is outside 1
  to 63, or the output file cannot be opened. The error is that of \<open>args.error\<close> or
  of \<open>die\<close>, and it is the result of \<open>main\<close>. Every command line that passes gets
  a fresh table of the given size, key length, bit width and reprobe limit, runs
  \<open>start\<close> on it and ends with the file written.
\<close>

theorem startup_rejects_iff:
  "(\<not> min_qual_value_given args \<and> \<not> min_qual_char_given args \<longrightarrow>
      (\<exists>msg. main_startup args output_good = Inl (ArgsError msg)))
   \<and> (min_qual_char_given args \<longrightarrow>
        ((\<exists>e. main_startup args output_good = Inl e) =
           (length (min_qual_char_arg args) \<noteq> 1
            \<or> bits_arg args < 1 \<or> 63 < bits_arg args
            \<or> \<not> output_good)))
   \<and> (\<forall>e. main_startup args output_good = Inl e \<longrightarrow>
         main L args output_good jobs = Inl e \<and> (\<exists>msg. e = ArgsError msg \<or> e = Die msg))
   \<and> (\<forall>t h. main_startup args output_good = Inr (t, h) \<longrightarrow>
         h = hash_with_quality_new (size_arg args) (2 * mer_arg args) (bits_arg args)
               (reprobe_arg args)
         \<and> start (mer_arg args) \<lparr>qc_ary = h, qc_parser = jobs, qc_qual_thresh = t\<rparr>
             = Inr \<lparr>sc_m = 0, sc_rm = 0, sc_ary = h, sc_calls = []\<rparr>
         \<and> (\<exists>f. main L args output_good jobs = Inr f))"
proof (intro conjI allI impI)
  assume "\<not> min_qual_value_given args \<and> \<not> min_qual_char_given args"
  then show "\<exists>msg. main_startup args output_good = Inl (ArgsError msg)"
    by (simp add: main_startup_def)
next
  assume "min_qual_char_given args"
  then show "(\<exists>e. main_startup args output_good = Inl e) =
           (length (min_qual_char_arg args) \<noteq> 1
            \<or> bits_arg args < 1 \<or> 63 < bits_arg args
            \<or> \<not> output_good)"
    by (simp add: main_startup_Inl)
next
  fix e assume "main_startup args output_good = Inl e"
  then show "main L args output_good jobs = Inl e" by (simp add: main_def)
next
  fix e assume "main_startup args output_good = Inl e"
  then show "\<exists>msg. e = ArgsError msg \<or> e = Die msg" by (rule main_startup_error)
next
  fix t h assume "main_startup args output_good = Inr (t, h)"
  then show "h = hash_with_quality_new (size_arg args) (2 * mer_arg args) (bits_arg args)
               (reprobe_arg args)"
    by (rule main_startup_Inr)
next
  fix t h
  show "start (mer_arg args) \<lparr>qc_ary = h, qc_parser = jobs, qc_qual_thresh = t\<rparr>
             = Inr \<lparr>sc_m = 0, sc_rm = 0, sc_ary = h, sc_calls = []\<rparr>"
    by (simp add: start_id)
next
  fix t h assume "main_startup args output_good = Inr (t, h)"
  from main_after_startup [OF this] show "\<exists>f. main L args output_good jobs = Inr f" by blast
qed


theorem startup_rejects_iff_witness:
  "main_startup (example_args\<lparr>min_qual_char_given := False\<rparr>) True
      = Inl (ArgsError ''Either a min-qual-value or min-qual-char must be provided.'')
   \<and> main_startup (example_args\<lparr>bits_arg := 64\<rparr>) True
      = Inl (ArgsError ''The number of bits should be between 1 and 63'')
   \<and> main example_layout (example_args\<lparr>bits_arg := 64\<rparr>) True [[(''ACGT'', ''IIII'')]]
      = Inl (ArgsError ''The number of bits should be between 1 and 63'')
   \<and> min_qual_char_given example_args
   \<and> length (min_qual_char_arg example_args) = 1
   \<and> main_startup example_args True = Inr (CHR ''#'', hash_with_quality_new 16 6 7 126)
   \<and> (\<exists>f. main example_layout example_args True [[(''ACGT'', ''IIII'')]] = Inr f)"
proof -
  let ?jobs = "[[(''ACGT'', ''IIII'')]]"
  have n: "\<not> min_qual_value_given (example_args\<lparr>min_qual_char_given := False\<rparr>)
      \<and> \<not> min_qual_char_given (example_args\<lparr>min_qual_char_given := False\<rparr>)"
    by (simp add: example_args_def)
  have n': "main_startup (example_args\<lparr>min_qual_char_given := False\<rparr>) True
      = Inl (ArgsError ''Either a min-qual-value or min-qual-char must be provided.'')"
    by (simp add: main_startup_def example_args_def)
  from startup_rejects_iff [of "example_args\<lparr>min_qual_char_given := False\<rparr>" True example_layout ?jobs] n
  have 0: "\<exists>msg. main_startup (example_args\<lparr>min_qual_char_given := False\<rparr>) True
      = Inl (ArgsError msg)" by blast
  have r: "main_startup (example_args\<lparr>bits_arg := 64\<rparr>) True
      = Inl (ArgsError ''The number of bits should be between 1 and 63'')"
    by (simp add: main_startup_def example_args_def)
  have g: "min_qual_char_given example_args" "length (min_qual_char_arg example_args) = 1"
    by (simp_all add: example_args_def)
  have a: "main_startup example_args True = Inr (CHR ''#'', hash_with_quality_new 16 6 7 126)"
    by (simp add: main_startup_def example_args_def)
  from startup_rejects_iff [of "example_args\<lparr>bits_arg := 64\<rparr>" True example_layout ?jobs] r
  have 1: "main example_layout (example_args\<lparr>bits_arg := 64\<rparr>) True ?jobs
      = Inl (ArgsError ''The number of bits should be between 1 and 63'')" by blast
  from startup_rejects_iff [of example_args True example_layout ?jobs] a
  have 2: "\<exists>f. main example_layout example_args True ?jobs = Inr f" by blast
  from 0 n' r g a 1 2 show ?thesis by blast
qed


subsection \<open>The query\<close>

text \<open>
  C10. For every database file that \<open>database_query\<close> opens without an error and
  every k-mer \<open>m\<close>, \<open>get_val\<close> returns 1, whatever \<open>m\<close> and the stored table
  are.
\<close>

theorem get_val_constant:
  "database_query_new filename file = Inr dq \<Longrightarrow> get_val dq m = 1"
  by (simp add: get_val_def)

theorem get_val_constant_witness:
  "database_query_new ''db'' (Some \<lparr>df_header = Some (set_format database_header_new), df_body = []\<rparr>)
     = Inr \<lparr>dq_header = set_format database_header_new, dq_file = [],
            dq_keys = \<lparr>kr_data = [], kr_size = 0, kr_key_len = 0, kr_val_len = 0, kr_max_reprobe = 0\<rparr>,
            dq_vals = \<lparr>vr_data = [], vr_bits = 0, vr_size = 0\<rparr>\<rparr>
   \<and> get_val \<lparr>dq_header = set_format database_header_new, dq_file = [],
            dq_keys = \<lparr>kr_data = [], kr_size = 0, kr_key_len = 0, kr_val_len = 0, kr_max_reprobe = 0\<rparr>,
            dq_vals = \<lparr>vr_data = [], vr_bits = 0, vr_size = 0\<rparr>\<rparr> 27 = 1"
proof -
  have o: "database_query_new ''db'' (Some \<lparr>df_header = Some (set_format database_header_new), df_body = []\<rparr>)
     = Inr \<lparr>dq_header = set_format database_header_new, dq_file = [],
            dq_keys = \<lparr>kr_data = [], kr_size = 0, kr_key_len = 0, kr_val_len = 0, kr_max_reprobe = 0\<rparr>,
            dq_vals = \<lparr>vr_data = [], vr_bits = 0, vr_size = 0\<rparr>\<rparr>"
    by (simp add: database_query_new_def parse_header_def check_format_def set_format_def
        database_header_new_def mapped_def)
  from get_val_constant [OF o, of 27] o show ?thesis by simp
qed

end
